theory Spec2Isabelle
  imports Complex_Main
begin

section \<open>The upload-then-poll component of ImageUploader.tsx\<close>

text \<open>
  The component is the second \<^verbatim>\<open>ImageUploader\<close> of
  \<^verbatim>\<open>src/frontend/image-resizer-frontend/src/ImageUploader.tsx\<close> (the one with
  \<^verbatim>\<open>pollForProcessedImage\<close>). It is event driven: a handler runs to completion, and what
  it awaits (an HTTP response, an interval timer) comes back later as another event. The model
  is a step function over a runtime state that holds the React state of the component, the
  interval timers that are running, the requests that are outstanding (each with the closure
  that waits for it) and the log of every request issued.

  Modelling decisions:
  \<^item> byte counts of progress events are natural numbers, small enough for the double
    arithmetic of \<^verbatim>\<open>(loaded * 100) / total\<close> to be exact before \<^verbatim>\<open>Math.round\<close>;
  \<^item> response payloads have their TypeScript types (\<^verbatim>\<open>PresignedUrlResponse\<close>,
    \<^verbatim>\<open>GetProcessedUrlResponse\<close>);
  \<^item> a request is recorded by its endpoint and arguments, not by its URL text;
  \<^item> the handlers are functions of the state: the \<^verbatim>\<open>disabled\<close> attributes of the
    rendered input and button are not part of the model, so a handler can be called in any
    state;
  \<^item> unmounting is the cleanup of the first effect; the state is kept afterwards, and a
    closure that is resumed later updates it like before.
\<close>

subsection \<open>Configuration and constants\<close>

record config =
  API_GATEWAY_URL :: "string option"
  DESTINATION_BUCKET_BASE_URL :: "string option"

definition POLL_INTERVAL_MS :: nat where
  "POLL_INTERVAL_MS = 3000"

definition MAX_POLL_ATTEMPTS :: nat where
  "MAX_POLL_ATTEMPTS = 15"

subsection \<open>JavaScript values\<close>

text \<open>A string is falsy when it is null, undefined or empty.\<close>

fun truthy :: "string option \<Rightarrow> bool" where
  "truthy None = False"
| "truthy (Some s) = (s \<noteq> [])"

fun startsWith :: "string \<Rightarrow> string \<Rightarrow> bool" where
  "startsWith s [] = True"
| "startsWith [] (c # cs) = False"
| "startsWith (x # xs) (c # cs) = (x = c \<and> startsWith xs cs)"

text \<open>\<^verbatim>\<open>String.prototype.includes\<close>: the argument occurs somewhere in the string.\<close>

fun includes_str :: "string \<Rightarrow> string \<Rightarrow> bool" where
  "includes_str [] sub = (sub = [])"
| "includes_str (c # cs) sub = (startsWith (c # cs) sub \<or> includes_str cs sub)"

text \<open>The result of \<^verbatim>\<open>Math.round\<close> on a quotient of byte counts.\<close>

datatype jsnum = Num int | Infinity | NaN

definition digit :: "nat \<Rightarrow> char" where
  "digit d = char_of (48 + d)"

function show_nat :: "nat \<Rightarrow> string" where
  "show_nat n = (if n < 10 then [digit n] else show_nat (n div 10) @ [digit (n mod 10)])"
  by pat_completeness auto
termination
  by (relation "measure (\<lambda>n. n)") auto

datatype jsfile = File (file_name: string) (file_type: string) (file_body: string)

text \<open>
  What a rejected promise carries: an Axios error with \<^verbatim>\<open>response?.status\<close>,
  \<^verbatim>\<open>response?.data?.message\<close> and \<^verbatim>\<open>message\<close>; another \<^verbatim>\<open>Error\<close> with its
  \<^verbatim>\<open>message\<close>; or a thrown value that is not an \<^verbatim>\<open>Error\<close>.
\<close>

datatype failure =
    AxiosError "nat option" "string option" string
  | OtherError string
  | Thrown

fun isAxiosError :: "failure \<Rightarrow> bool" where
  "isAxiosError (AxiosError st dm m) = True"
| "isAxiosError _ = False"

fun response_status :: "failure \<Rightarrow> nat option" where
  "response_status (AxiosError st dm m) = st"
| "response_status _ = None"

text \<open>\<^verbatim>\<open>a || b\<close> on strings.\<close>

definition or_else :: "string option \<Rightarrow> string \<Rightarrow> string" where
  "or_else a b = (if truthy a then the a else b)"

subsection \<open>State\<close>

record component =
  selectedFile :: "jsfile option"
  uploadProgress :: jsnum
  isUploading :: bool
  errorMessage :: "string option"
  processedImageUrl :: "string option"
  statusMessage :: string
  pollIntervalRef :: "nat option"

text \<open>
  A running interval timer: its handle, the \<^verbatim>\<open>key\<close> and the \<^verbatim>\<open>attempt\<close> variable of the
  \<^verbatim>\<open>handleUpload\<close> call that created it (the callback is
  \<^verbatim>\<open>pollForProcessedImage(key, ++attempt)\<close>), and its period.
\<close>

datatype interval =
  Interval (timer_id: nat) (timer_key: string) (timer_attempt: nat) (timer_ms: nat)

datatype request =
    PostGenerateUploadUrl string string
  | PutUpload string jsfile
  | GetProcessedUrl string nat
  | GetLiteralUrl

text \<open>
  \<open>PostGenerateUploadUrl filename contentType\<close> is the POST to
  \<^verbatim>\<open>${API_GATEWAY_URL}/generate-upload-url\<close>; \<open>PutUpload uploadUrl file\<close> the PUT of the
  file with its type as \<^verbatim>\<open>Content-Type\<close>; \<open>GetProcessedUrl key attempt\<close> the GET that
  \<^verbatim>\<open>pollForProcessedImage(key, attempt)\<close> sends to
  \<^verbatim>\<open>${API_GATEWAY_URL}/get-processed-url?key=...\<close>; \<open>GetLiteralUrl\<close> the GET of
  \<^verbatim>\<open>handleUpload\<close> after it has started the timer, whose template literal has no
  \<^verbatim>\<open>${...}\<close> and so is a fixed text that holds neither the gateway URL nor the key.
\<close>

text \<open>The closure that waits for an outstanding request.\<close>

datatype pending =
    AwaitPost jsfile
  | AwaitPut string
  | AwaitPoll nat
  | AwaitLiteralGet

datatype response =
    UploadUrlResponse string string
  | PutDone
  | ProcessedUrlResponse string
  | Rejected failure

record runtime = component +
  intervals :: "interval list"
  next_interval :: nat
  inflight :: "(nat \<times> pending) list"
  issued :: "request list"

datatype event =
    FileChange "jsfile list option"
  | ClickUpload
  | Resolve nat response
  | UploadProgress nat nat "nat option"
  | Tick nat
  | Unmount

subsection \<open>Timers and requests\<close>

definition clearInterval :: "nat \<Rightarrow> interval list \<Rightarrow> interval list" where
  "clearInterval t ts = filter (\<lambda>i. timer_id i \<noteq> t) ts"

text \<open>Timer handles are never 0, so a handle is truthy.\<close>

definition stopPolling :: "runtime \<Rightarrow> runtime" where
  "stopPolling w =
     (case pollIntervalRef w of
        None \<Rightarrow> w
      | Some t \<Rightarrow> w\<lparr>pollIntervalRef := None, intervals := clearInterval t (intervals w)\<rparr>)"

text \<open>A request gets the next index of the log as its identity.\<close>

definition send :: "request \<Rightarrow> pending \<Rightarrow> runtime \<Rightarrow> runtime" where
  "send r p w = w\<lparr>inflight := inflight w @ [(length (issued w), p)], issued := issued w @ [r]\<rparr>"

definition settle :: "nat \<Rightarrow> runtime \<Rightarrow> runtime" where
  "settle i w = w\<lparr>inflight := filter (\<lambda>e. fst e \<noteq> i) (inflight w)\<rparr>"

subsection \<open>pollForProcessedImage\<close>

definition pollForProcessedImage :: "string \<Rightarrow> nat \<Rightarrow> runtime \<Rightarrow> runtime" where
  "pollForProcessedImage key attempt w =
     send (GetProcessedUrl key attempt) (AwaitPoll attempt)
       (w\<lparr>statusMessage :=
            ''Processing... (Attempt '' @ show_nat attempt @ ''/'' @ show_nat MAX_POLL_ATTEMPTS @ '')''\<rparr>)"

definition pollThen :: "string \<Rightarrow> runtime \<Rightarrow> runtime" where
  "pollThen secureProcessedUrl w =
     stopPolling (w\<lparr>processedImageUrl := Some secureProcessedUrl,
                    statusMessage := ''Processing complete.''\<rparr>)"

definition pollCatch :: "nat \<Rightarrow> failure \<Rightarrow> runtime \<Rightarrow> runtime" where
  "pollCatch attempt error w =
     (if attempt \<ge> MAX_POLL_ATTEMPTS then
        stopPolling (w\<lparr>errorMessage := Some ''Processing timed out or failed. Please try again.'',
                       statusMessage := ''''\<rparr>)
      else if isAxiosError error \<and> response_status error \<noteq> Some 404 then
        (case error of
           AxiosError st dm m \<Rightarrow>
             stopPolling (w\<lparr>errorMessage :=
                              Some (''Error retrieving processed image: '' @ or_else dm m),
                            statusMessage := ''''\<rparr>)
         | _ \<Rightarrow> w)
      else w)"

subsection \<open>handleFileChange\<close>

text \<open>The argument is \<^verbatim>\<open>event.target.files\<close>: null, or a list whose first entry is taken.\<close>

definition handleFileChange :: "jsfile list option \<Rightarrow> runtime \<Rightarrow> runtime" where
  "handleFileChange files w =
     (case files of
        Some (f # rest) \<Rightarrow>
          stopPolling (w\<lparr>selectedFile := Some f, errorMessage := None, processedImageUrl := None,
                         uploadProgress := Num 0, statusMessage := ''''\<rparr>)
      | _ \<Rightarrow> w)"

subsection \<open>handleUpload\<close>

definition api_unconfigured :: "config \<Rightarrow> bool" where
  "api_unconfigured cfg =
     (\<not> truthy (API_GATEWAY_URL cfg) \<or> API_GATEWAY_URL cfg = Some ''YOUR_API_GATEWAY_INVOKE_URL'')"

definition bucket_unconfigured :: "config \<Rightarrow> bool" where
  "bucket_unconfigured cfg =
     (case DESTINATION_BUCKET_BASE_URL cfg of
        None \<Rightarrow> True
      | Some u \<Rightarrow> u = [] \<or> includes_str u ''your-destination-bucket-name'')"

text \<open>The synchronous part of \<^verbatim>\<open>handleUpload\<close>, up to the first \<^verbatim>\<open>await\<close>.\<close>

definition handleUpload :: "config \<Rightarrow> runtime \<Rightarrow> runtime" where
  "handleUpload cfg w =
     (case selectedFile w of
        None \<Rightarrow> w\<lparr>errorMessage := Some ''Please select a file first.''\<rparr>
      | Some f \<Rightarrow>
          if api_unconfigured cfg then
            w\<lparr>errorMessage := Some ''Frontend is not configured with API Gateway URL.''\<rparr>
          else if bucket_unconfigured cfg then
            w\<lparr>errorMessage := Some ''Frontend is not configured with Destination Bucket URL.''\<rparr>
          else
            send (PostGenerateUploadUrl (file_name f) (file_type f)) (AwaitPost f)
              (stopPolling (w\<lparr>isUploading := True, errorMessage := None,
                              processedImageUrl := None, uploadProgress := Num 0,
                              statusMessage := ''Getting upload URL...''\<rparr>)))"

text \<open>After the POST: the PUT of the file that the call had captured.\<close>

definition afterPost :: "jsfile \<Rightarrow> string \<Rightarrow> string \<Rightarrow> runtime \<Rightarrow> runtime" where
  "afterPost f uploadUrl key w =
     send (PutUpload uploadUrl f) (AwaitPut key) (w\<lparr>statusMessage := ''Uploading...''\<rparr>)"

text \<open>\<^verbatim>\<open>Math.round((loaded * 100) / (total ?? 1))\<close>, rounding halves up.\<close>

definition percentCompleted :: "nat \<Rightarrow> nat option \<Rightarrow> jsnum" where
  "percentCompleted loaded tot =
     (case tot of
        None \<Rightarrow> Num (int (loaded * 100))
      | Some t \<Rightarrow>
          if t = 0 then (if loaded = 0 then NaN else Infinity)
          else Num (int ((2 * (loaded * 100) + t) div (2 * t))))"

definition onUploadProgress :: "nat \<Rightarrow> nat option \<Rightarrow> runtime \<Rightarrow> runtime" where
  "onUploadProgress loaded tot w = w\<lparr>uploadProgress := percentCompleted loaded tot\<rparr>"

definition setInterval :: "string \<Rightarrow> nat \<Rightarrow> nat \<Rightarrow> runtime \<Rightarrow> runtime" where
  "setInterval key attempt ms w =
     w\<lparr>pollIntervalRef := Some (next_interval w),
       intervals := intervals w @ [Interval (next_interval w) key attempt ms],
       next_interval := Suc (next_interval w)\<rparr>"

text \<open>
  After the PUT: \<^verbatim>\<open>attempt\<close> is 0, the first poll is sent with \<^verbatim>\<open>++attempt\<close>, the
  timer is started and stored, and the GET of the fixed text is sent and awaited.
\<close>

definition afterPut :: "string \<Rightarrow> runtime \<Rightarrow> runtime" where
  "afterPut key w =
     (let attempt = 0;
          attempt = Suc attempt;
          w1 = pollForProcessedImage key attempt
                 (w\<lparr>statusMessage := ''Upload successful! Getting processed image URL...''\<rparr>);
          w2 = setInterval key attempt POLL_INTERVAL_MS w1
      in send GetLiteralUrl AwaitLiteralGet w2)"

text \<open>The outer \<^verbatim>\<open>catch\<close> of \<^verbatim>\<open>handleUpload\<close>: the POST or the PUT was rejected.\<close>

fun uploadFailedMessage :: "failure \<Rightarrow> string" where
  "uploadFailedMessage (AxiosError st dm m) = or_else (Some (or_else dm m)) ''Upload failed.''"
| "uploadFailedMessage (OtherError m) = m"
| "uploadFailedMessage Thrown = ''Upload failed.''"

definition uploadCatch :: "failure \<Rightarrow> runtime \<Rightarrow> runtime" where
  "uploadCatch error w =
     stopPolling (w\<lparr>errorMessage := Some (uploadFailedMessage error), statusMessage := '''',
                    isUploading := False\<rparr>)"

text \<open>The inner \<^verbatim>\<open>try\<close> of \<^verbatim>\<open>handleUpload\<close>, around the GET of the fixed text.\<close>

definition literalGetThen :: "string \<Rightarrow> runtime \<Rightarrow> runtime" where
  "literalGetThen secureProcessedUrl w =
     w\<lparr>processedImageUrl := Some secureProcessedUrl, statusMessage := ''Processing complete.''\<rparr>"

fun getUrlFailedMessage :: "failure \<Rightarrow> string" where
  "getUrlFailedMessage (AxiosError st dm m) =
     (if st = Some 404 then ''Processed image not found yet. Try refreshing shortly.''
      else or_else (Some (or_else dm m)) ''Could not retrieve processed image URL.'')"
| "getUrlFailedMessage (OtherError m) = m"
| "getUrlFailedMessage Thrown = ''Could not retrieve processed image URL.''"

definition literalGetCatch :: "failure \<Rightarrow> runtime \<Rightarrow> runtime" where
  "literalGetCatch error w =
     w\<lparr>errorMessage := Some (getUrlFailedMessage error), statusMessage := ''''\<rparr>"

subsection \<open>Effects and the event loop\<close>

text \<open>
  \<^verbatim>\<open>useEffect(..., [processedImageUrl, errorMessage])\<close>: after a handler, when one of the
  two has changed and one of them is truthy, the in-progress flag is reset.
\<close>

definition resultEffect :: "runtime \<Rightarrow> runtime \<Rightarrow> runtime" where
  "resultEffect old new =
     (if (processedImageUrl new \<noteq> processedImageUrl old \<or> errorMessage new \<noteq> errorMessage old)
         \<and> (truthy (processedImageUrl new) \<or> truthy (errorMessage new))
      then new\<lparr>isUploading := False\<rparr> else new)"

text \<open>The cleanup of the first effect clears the timer and leaves the ref as it is.\<close>

definition unmountCleanup :: "runtime \<Rightarrow> runtime" where
  "unmountCleanup w =
     (case pollIntervalRef w of
        None \<Rightarrow> w
      | Some t \<Rightarrow> w\<lparr>intervals := clearInterval t (intervals w)\<rparr>)"

fun find_interval :: "nat \<Rightarrow> interval list \<Rightarrow> interval option" where
  "find_interval t [] = None"
| "find_interval t (i # is) = (if timer_id i = t then Some i else find_interval t is)"

fun bump_interval :: "nat \<Rightarrow> interval list \<Rightarrow> interval list" where
  "bump_interval t [] = []"
| "bump_interval t (i # is) =
     (if timer_id i = t
      then Interval (timer_id i) (timer_key i) (Suc (timer_attempt i)) (timer_ms i) # is
      else i # bump_interval t is)"

text \<open>A timer that is running fires: \<^verbatim>\<open>pollForProcessedImage(key, ++attempt)\<close>.\<close>

definition tick :: "nat \<Rightarrow> runtime \<Rightarrow> runtime" where
  "tick t w =
     (case find_interval t (intervals w) of
        None \<Rightarrow> w
      | Some i \<Rightarrow>
          pollForProcessedImage (timer_key i) (Suc (timer_attempt i))
            (w\<lparr>intervals := bump_interval t (intervals w)\<rparr>))"

text \<open>
  A response resumes the closure that waits for it; a response for a request that is not
  outstanding, or of another kind than the request's, does not occur and changes nothing.
\<close>

fun resume :: "pending \<Rightarrow> response \<Rightarrow> runtime \<Rightarrow> runtime option" where
  "resume (AwaitPost f) (UploadUrlResponse uploadUrl key) w = Some (afterPost f uploadUrl key w)"
| "resume (AwaitPost f) (Rejected e) w = Some (uploadCatch e w)"
| "resume (AwaitPut key) PutDone w = Some (afterPut key w)"
| "resume (AwaitPut key) (Rejected e) w = Some (uploadCatch e w)"
| "resume (AwaitPoll attempt) (ProcessedUrlResponse url) w = Some (pollThen url w)"
| "resume (AwaitPoll attempt) (Rejected e) w = Some (pollCatch attempt e w)"
| "resume AwaitLiteralGet (ProcessedUrlResponse url) w = Some (literalGetThen url w)"
| "resume AwaitLiteralGet (Rejected e) w = Some (literalGetCatch e w)"
| "resume _ _ w = None"

definition resolve :: "nat \<Rightarrow> response \<Rightarrow> runtime \<Rightarrow> runtime" where
  "resolve i r w =
     (case map_of (inflight w) i of
        None \<Rightarrow> w
      | Some p \<Rightarrow> (case resume p r (settle i w) of None \<Rightarrow> w | Some w' \<Rightarrow> w'))"

definition progress :: "nat \<Rightarrow> nat \<Rightarrow> nat option \<Rightarrow> runtime \<Rightarrow> runtime" where
  "progress i loaded tot w =
     (case map_of (inflight w) i of
        Some (AwaitPut key) \<Rightarrow> onUploadProgress loaded tot w
      | _ \<Rightarrow> w)"

fun handle :: "config \<Rightarrow> event \<Rightarrow> runtime \<Rightarrow> runtime" where
  "handle cfg (FileChange files) w = handleFileChange files w"
| "handle cfg ClickUpload w = handleUpload cfg w"
| "handle cfg (Resolve i r) w = resolve i r w"
| "handle cfg (UploadProgress i loaded tot) w = progress i loaded tot w"
| "handle cfg (Tick t) w = tick t w"
| "handle cfg Unmount w = unmountCleanup w"

definition step :: "config \<Rightarrow> event \<Rightarrow> runtime \<Rightarrow> runtime" where
  "step cfg e w = resultEffect w (handle cfg e w)"

fun run :: "config \<Rightarrow> event list \<Rightarrow> runtime \<Rightarrow> runtime" where
  "run cfg [] w = w"
| "run cfg (e # es) w = run cfg es (step cfg e w)"

text \<open>The component as mounted: the initial values of \<^verbatim>\<open>useState\<close> and \<^verbatim>\<open>useRef\<close>.\<close>

definition mounted :: runtime where
  "mounted =
     \<lparr>selectedFile = None, uploadProgress = Num 0, isUploading = False, errorMessage = None,
      processedImageUrl = None, statusMessage = '''', pollIntervalRef = None,
      intervals = [], next_interval = 1, inflight = [], issued = []\<rparr>"

subsection \<open>Observations on a state\<close>

text \<open>
  At most one timer is running, and it is the one the component holds in
  \<^verbatim>\<open>pollIntervalRef\<close>.
\<close>

fun owned :: "nat option \<Rightarrow> interval list \<Rightarrow> bool" where
  "owned r [] = True"
| "owned r [i] = (r = Some (timer_id i))"
| "owned r (i # j # others) = False"

definition timers_owned :: "runtime \<Rightarrow> bool" where
  "timers_owned w = owned (pollIntervalRef w) (intervals w)"

fun is_upload_op :: "pending \<Rightarrow> bool" where
  "is_upload_op (AwaitPost f) = True"
| "is_upload_op (AwaitPut key) = True"
| "is_upload_op _ = False"

fun is_poll :: "pending \<Rightarrow> bool" where
  "is_poll (AwaitPoll attempt) = True"
| "is_poll _ = False"

text \<open>The POST and PUT requests, and the poll requests, that are outstanding.\<close>

definition upload_ops :: "runtime \<Rightarrow> nat" where
  "upload_ops w = length (filter (\<lambda>e. is_upload_op (snd e)) (inflight w))"

definition polls_outstanding :: "runtime \<Rightarrow> nat" where
  "polls_outstanding w = length (filter (\<lambda>e. is_poll (snd e)) (inflight w))"

text \<open>A schedule in which \<^verbatim>\<open>handleUpload\<close> is not called while a POST or PUT is outstanding.\<close>

fun no_overlap :: "config \<Rightarrow> event list \<Rightarrow> runtime \<Rightarrow> bool" where
  "no_overlap cfg [] w = True"
| "no_overlap cfg (e # es) w =
     ((e = ClickUpload \<longrightarrow> upload_ops w = 0) \<and> no_overlap cfg es (step cfg e w))"


text \<open>
  The events that cancel polling: a file selection that carries a file, a call of
  \<^verbatim>\<open>handleUpload\<close> that passes its checks, and the unmounting of the component.
\<close>

fun cancels :: "config \<Rightarrow> event \<Rightarrow> runtime \<Rightarrow> bool" where
  "cancels cfg (FileChange (Some (f # rest))) w = True"
| "cancels cfg ClickUpload w =
     (selectedFile w \<noteq> None \<and> \<not> api_unconfigured cfg \<and> \<not> bucket_unconfigured cfg)"
| "cancels cfg Unmount w = True"
| "cancels cfg e w = False"

fun is_poll_request :: "request \<Rightarrow> bool" where
  "is_poll_request (GetProcessedUrl key attempt) = True"
| "is_poll_request _ = False"

text \<open>The number of poll requests sent so far.\<close>

definition polls_sent :: "runtime \<Rightarrow> nat" where
  "polls_sent w = length (filter is_poll_request (issued w))"

text \<open>
  The state of the timers in a run without overlapping uploads: at most one POST or PUT is
  outstanding, at most one timer is running and the component holds it, and no timer is
  running while a POST or PUT is outstanding.
\<close>

definition settled_timers :: "runtime \<Rightarrow> bool" where
  "settled_timers w =
     (upload_ops w \<le> 1 \<and> timers_owned w \<and> (0 < upload_ops w \<longrightarrow> intervals w = []))"

subsection \<open>Sample inputs\<close>

definition sample_config :: config where
  "sample_config =
     \<lparr>API_GATEWAY_URL = Some ''https://api.example'',
      DESTINATION_BUCKET_BASE_URL = Some ''https://bucket.example''\<rparr>"

definition photo :: jsfile where
  "photo = File ''photo.jpg'' ''image/jpeg'' ''JFIF''"


definition not_found :: response where
  "not_found = Rejected (AxiosError (Some 404) None ''Request failed with status code 404'')"


text \<open>
  A file is selected and uploaded: the POST (request 0) returns the upload URL and the key,
  the PUT (request 1) succeeds, and the first poll (request 2) and the GET of the fixed text
  (request 3) are outstanding, with timer 1 running.
\<close>

definition upload_done :: "event list" where
  "upload_done =
     [FileChange (Some [photo]), ClickUpload,
      Resolve 0 (UploadUrlResponse ''https://store/x'' ''abc123''), Resolve 1 PutDone]"

definition polling :: runtime where
  "polling = run sample_config upload_done mounted"

text \<open>The POST (request 0) is outstanding; then the PUT (request 1) is.\<close>

definition requesting :: runtime where
  "requesting = run sample_config [FileChange (Some [photo]), ClickUpload] mounted"

definition transferring :: runtime where
  "transferring =
     step sample_config (Resolve 0 (UploadUrlResponse ''https://store/x'' ''abc123'')) requesting"

definition network_error :: failure where
  "network_error = AxiosError None None ''Network Error''"

text \<open>
  The identity of the poll request of an attempt in the sample run: the first poll is request
  2, the GET of the fixed text is request 3, and attempt \<open>k\<close> from the timer is request
  \<open>k + 2\<close>. In \<open>fourteen_rounds\<close> every poll is answered with 404 before the timer
  fires again, so that afterwards attempt 15 (request 17) is outstanding.
\<close>

definition poll_request_id :: "nat \<Rightarrow> nat" where
  "poll_request_id k = (if k = 1 then 2 else k + 2)"

definition fourteen_rounds :: "event list" where
  "fourteen_rounds =
     concat (map (\<lambda>k. [Resolve (poll_request_id k) not_found, Tick 1]) [1..<15])"

definition last_attempt :: runtime where
  "last_attempt = run sample_config fourteen_rounds polling"



section \<open>Basic facts about the handlers\<close>

lemma stopPolling_fields [simp]:
  "selectedFile (stopPolling w) = selectedFile w"
  "uploadProgress (stopPolling w) = uploadProgress w"
  "isUploading (stopPolling w) = isUploading w"
  "errorMessage (stopPolling w) = errorMessage w"
  "processedImageUrl (stopPolling w) = processedImageUrl w"
  "statusMessage (stopPolling w) = statusMessage w"
  "pollIntervalRef (stopPolling w) = None"
  "next_interval (stopPolling w) = next_interval w"
  "inflight (stopPolling w) = inflight w"
  "issued (stopPolling w) = issued w"
  by (simp_all add: stopPolling_def split: option.splits)

lemma stopPolling_intervals:
  "intervals (stopPolling w) =
     (case pollIntervalRef w of None \<Rightarrow> intervals w | Some t \<Rightarrow> clearInterval t (intervals w))"
  by (simp add: stopPolling_def split: option.splits)

lemma stopPolling_subset: "set (intervals (stopPolling w)) \<subseteq> set (intervals w)"
  by (auto simp: stopPolling_intervals clearInterval_def split: option.splits)

lemma owned_cases:
  "owned r ts \<longleftrightarrow> ts = [] \<or> (\<exists>i. ts = [i] \<and> r = Some (timer_id i))"
  by (cases "(r, ts)" rule: owned.cases) auto

lemma stopPolling_owned: "timers_owned w \<Longrightarrow> intervals (stopPolling w) = []"
  by (auto simp: stopPolling_intervals timers_owned_def owned_cases clearInterval_def
           split: option.splits)


lemma owned_idle: "intervals w = [] \<Longrightarrow> timers_owned w"
  by (simp add: timers_owned_def)

lemma stopPolling_more_fields:
  "stopPolling (w\<lparr>selectedFile := a\<rparr>) = (stopPolling w)\<lparr>selectedFile := a\<rparr>"
  "stopPolling (w\<lparr>uploadProgress := b\<rparr>) = (stopPolling w)\<lparr>uploadProgress := b\<rparr>"
  "stopPolling (w\<lparr>isUploading := c\<rparr>) = (stopPolling w)\<lparr>isUploading := c\<rparr>"
  "stopPolling (w\<lparr>errorMessage := d\<rparr>) = (stopPolling w)\<lparr>errorMessage := d\<rparr>"
  "stopPolling (w\<lparr>processedImageUrl := e\<rparr>) = (stopPolling w)\<lparr>processedImageUrl := e\<rparr>"
  "stopPolling (w\<lparr>statusMessage := f\<rparr>) = (stopPolling w)\<lparr>statusMessage := f\<rparr>"
  by (simp_all add: stopPolling_def split: option.splits)





lemma resultEffect_fields [simp]:
  "selectedFile (resultEffect w v) = selectedFile v"
  "uploadProgress (resultEffect w v) = uploadProgress v"
  "errorMessage (resultEffect w v) = errorMessage v"
  "processedImageUrl (resultEffect w v) = processedImageUrl v"
  "statusMessage (resultEffect w v) = statusMessage v"
  "pollIntervalRef (resultEffect w v) = pollIntervalRef v"
  "intervals (resultEffect w v) = intervals v"
  "next_interval (resultEffect w v) = next_interval v"
  "inflight (resultEffect w v) = inflight v"
  "issued (resultEffect w v) = issued v"
  by (simp_all add: resultEffect_def)

lemma resultEffect_isUploading: "\<not> isUploading v \<Longrightarrow> \<not> isUploading (resultEffect w v)"
  by (simp add: resultEffect_def)

lemma settle_fields [simp]:
  "selectedFile (settle i w) = selectedFile w"
  "uploadProgress (settle i w) = uploadProgress w"
  "isUploading (settle i w) = isUploading w"
  "errorMessage (settle i w) = errorMessage w"
  "processedImageUrl (settle i w) = processedImageUrl w"
  "statusMessage (settle i w) = statusMessage w"
  "pollIntervalRef (settle i w) = pollIntervalRef w"
  "intervals (settle i w) = intervals w"
  "next_interval (settle i w) = next_interval w"
  "inflight (settle i w) = filter (\<lambda>e. fst e \<noteq> i) (inflight w)"
  "issued (settle i w) = issued w"
  by (simp_all add: settle_def)

lemma send_fields [simp]:
  "selectedFile (send r p w) = selectedFile w"
  "uploadProgress (send r p w) = uploadProgress w"
  "isUploading (send r p w) = isUploading w"
  "errorMessage (send r p w) = errorMessage w"
  "processedImageUrl (send r p w) = processedImageUrl w"
  "statusMessage (send r p w) = statusMessage w"
  "pollIntervalRef (send r p w) = pollIntervalRef w"
  "intervals (send r p w) = intervals w"
  "next_interval (send r p w) = next_interval w"
  "inflight (send r p w) = inflight w @ [(length (issued w), p)]"
  "issued (send r p w) = issued w @ [r]"
  by (simp_all add: send_def)

lemma map_of_settled: "map_of (filter (\<lambda>e. fst e \<noteq> i) xs) i = None"
  by (induction xs) auto

lemma step_resolve:
  "map_of (inflight w) i = Some p \<Longrightarrow> resume p r (settle i w) = Some v \<Longrightarrow>
     step cfg (Resolve i r) w = resultEffect w v"
  by (simp add: step_def resolve_def)

lemma step_resolve_absent:
  "map_of (inflight w) i = None \<Longrightarrow> step cfg (Resolve i r) w = w"
  by (simp add: step_def resolve_def resultEffect_def)

lemma uploadFailedMessage_axios: "isAxiosError e \<Longrightarrow> uploadFailedMessage e \<noteq> []"
  by (cases e) (auto simp: or_else_def)

section \<open>File selection\<close>

lemma step_select:
  "step cfg (FileChange (Some (f # rest))) w =
     stopPolling (w\<lparr>selectedFile := Some f, errorMessage := None, processedImageUrl := None,
                    uploadProgress := Num 0, statusMessage := ''''\<rparr>)"
  by (simp add: step_def handleFileChange_def resultEffect_def)

lemma step_file_change_cases:
  "step cfg (FileChange files) w = w \<or>
   (\<exists>f rest. files = Some (f # rest) \<and> step cfg (FileChange files) w =
     stopPolling (w\<lparr>selectedFile := Some f, errorMessage := None, processedImageUrl := None,
                    uploadProgress := Num 0, statusMessage := ''''\<rparr>))"
  by (cases files; cases "the files") (simp_all add: step_def handleFileChange_def resultEffect_def)

lemma step_file_change_keeps:
  assumes "timers_owned w"
  shows "timers_owned (step cfg (FileChange a) w) \<and>
         length (intervals (step cfg (FileChange a) w)) \<le> length (intervals w) \<and>
         issued (step cfg (FileChange a) w) = issued w \<and>
         inflight (step cfg (FileChange a) w) = inflight w"
  using step_file_change_cases [of cfg a w]
proof
  assume "step cfg (FileChange a) w = w"
  with assms show ?thesis by simp
next
  assume "\<exists>f rest. a = Some (f # rest) \<and> step cfg (FileChange a) w =
     stopPolling (w\<lparr>selectedFile := Some f, errorMessage := None, processedImageUrl := None,
                    uploadProgress := Num 0, statusMessage := ''''\<rparr>)"
  then obtain f where eq: "step cfg (FileChange a) w =
     stopPolling (w\<lparr>selectedFile := Some f, errorMessage := None, processedImageUrl := None,
                    uploadProgress := Num 0, statusMessage := ''''\<rparr>)"
    by blast
  have "timers_owned (w\<lparr>selectedFile := Some f, errorMessage := None,
          processedImageUrl := None, uploadProgress := Num 0, statusMessage := ''''\<rparr>)"
    using assms by (simp add: timers_owned_def)
  from stopPolling_owned [OF this] show ?thesis
    unfolding eq by (simp add: owned_idle)
qed



text \<open>
  C10. When the change event carries no file (the file list is null or empty),
  \<^verbatim>\<open>handleFileChange\<close> changes nothing: the selected file, the progress, the error
  message, the processed-image URL, the status message, the timer and everything else in
  the state stay as they are.
\<close>

theorem handleFileChange_no_file:
  "step cfg (FileChange None) w = w \<and> step cfg (FileChange (Some [])) w = w"
  by (simp add: step_def handleFileChange_def resultEffect_def)


section \<open>Starting an upload\<close>

lemma step_upload_refused:
  assumes "selectedFile w = None \<or> api_unconfigured cfg \<or> bucket_unconfigured cfg"
  shows "inflight (step cfg ClickUpload w) = inflight w \<and>
         pollIntervalRef (step cfg ClickUpload w) = pollIntervalRef w \<and>
         intervals (step cfg ClickUpload w) = intervals w"
  using assms
  by (cases "selectedFile w") (auto simp: step_def handleUpload_def)

text \<open>
  C4. When \<^verbatim>\<open>handleUpload\<close> is called with no selected file, or with the gateway URL
  missing, empty or the placeholder, or with the bucket URL missing, empty or holding the
  placeholder, it sets the error message of the first check that fails and returns: no
  request is sent, and the progress, the timer, the processed-image URL, the selected file
  and the status message are as before.
\<close>

theorem handleUpload_precondition_fails:
  assumes "selectedFile w = None \<or> api_unconfigured cfg \<or> bucket_unconfigured cfg"
  shows
    "errorMessage (step cfg ClickUpload w) =
       Some (if selectedFile w = None then ''Please select a file first.''
             else if api_unconfigured cfg
               then ''Frontend is not configured with API Gateway URL.''
             else ''Frontend is not configured with Destination Bucket URL.'') \<and>
     issued (step cfg ClickUpload w) = issued w \<and>
     inflight (step cfg ClickUpload w) = inflight w \<and>
     uploadProgress (step cfg ClickUpload w) = uploadProgress w \<and>
     pollIntervalRef (step cfg ClickUpload w) = pollIntervalRef w \<and>
     intervals (step cfg ClickUpload w) = intervals w \<and>
     next_interval (step cfg ClickUpload w) = next_interval w \<and>
     processedImageUrl (step cfg ClickUpload w) = processedImageUrl w \<and>
     selectedFile (step cfg ClickUpload w) = selectedFile w \<and>
     statusMessage (step cfg ClickUpload w) = statusMessage w"
  using assms
  by (cases "selectedFile w") (auto simp: step_def handleUpload_def resultEffect_def)

theorem handleUpload_precondition_fails_witness:
  "errorMessage (step sample_config ClickUpload mounted) = Some ''Please select a file first.'' \<and>
   issued (step sample_config ClickUpload mounted) = [] \<and>
   errorMessage (step (sample_config\<lparr>API_GATEWAY_URL := None\<rparr>) ClickUpload
       (mounted\<lparr>selectedFile := Some photo\<rparr>)) =
     Some ''Frontend is not configured with API Gateway URL.'' \<and>
   issued (step (sample_config\<lparr>API_GATEWAY_URL := None\<rparr>) ClickUpload
       (mounted\<lparr>selectedFile := Some photo\<rparr>)) = [] \<and>
   errorMessage
     (step (sample_config\<lparr>DESTINATION_BUCKET_BASE_URL :=
               Some ''https://your-destination-bucket-name.s3.amazonaws.com''\<rparr>) ClickUpload
       (mounted\<lparr>selectedFile := Some photo\<rparr>)) =
     Some ''Frontend is not configured with Destination Bucket URL.''"
proof -
  have a: "selectedFile mounted = None"
    by (simp add: mounted_def)
  have b: "api_unconfigured (sample_config\<lparr>API_GATEWAY_URL := None\<rparr>)"
    by (simp add: api_unconfigured_def)
  have c: "bucket_unconfigured (sample_config\<lparr>DESTINATION_BUCKET_BASE_URL :=
               Some ''https://your-destination-bucket-name.s3.amazonaws.com''\<rparr>)"
    by (simp add: bucket_unconfigured_def)
  have d: "\<not> api_unconfigured (sample_config\<lparr>DESTINATION_BUCKET_BASE_URL :=
               Some ''https://your-destination-bucket-name.s3.amazonaws.com''\<rparr>)"
    by (simp add: api_unconfigured_def sample_config_def)
  have e: "issued mounted = []" "selectedFile (mounted\<lparr>selectedFile := Some photo\<rparr>) \<noteq> None"
    "issued (mounted\<lparr>selectedFile := Some photo\<rparr>) = []"
    by (simp_all add: mounted_def)
  show ?thesis
    using handleUpload_precondition_fails [of mounted sample_config, OF disjI1, OF a]
      handleUpload_precondition_fails [of "mounted\<lparr>selectedFile := Some photo\<rparr>"
        "sample_config\<lparr>API_GATEWAY_URL := None\<rparr>", OF disjI2, OF disjI1, OF b]
      handleUpload_precondition_fails [of "mounted\<lparr>selectedFile := Some photo\<rparr>"
        "sample_config\<lparr>DESTINATION_BUCKET_BASE_URL :=
               Some ''https://your-destination-bucket-name.s3.amazonaws.com''\<rparr>",
        OF disjI2, OF disjI2, OF c]
      a b d e
    by simp
qed

section \<open>Failure of the upload\<close>

lemma resume_upload_rejected:
  "is_upload_op p \<Longrightarrow> resume p (Rejected e) v = Some (uploadCatch e v)"
  by (cases p) simp_all

text \<open>
  C7. When the POST for the upload URL or the PUT of the file is rejected, the outer
  \<^verbatim>\<open>catch\<close> of \<^verbatim>\<open>handleUpload\<close> sets the error message (a text that is displayed
  whenever the rejection is an Axios error), resets the in-progress flag and the status
  message, and polling does not start: no request is sent, no timer is created, the timer
  reference is empty, and the call is over, its request no longer awaited.
\<close>

theorem upload_failure_stops:
  assumes "map_of (inflight w) i = Some p" and "is_upload_op p"
  shows
    "errorMessage (step cfg (Resolve i (Rejected e)) w) = Some (uploadFailedMessage e) \<and>
     (isAxiosError e \<longrightarrow> truthy (errorMessage (step cfg (Resolve i (Rejected e)) w))) \<and>
     \<not> isUploading (step cfg (Resolve i (Rejected e)) w) \<and>
     statusMessage (step cfg (Resolve i (Rejected e)) w) = '''' \<and>
     issued (step cfg (Resolve i (Rejected e)) w) = issued w \<and>
     pollIntervalRef (step cfg (Resolve i (Rejected e)) w) = None \<and>
     set (intervals (step cfg (Resolve i (Rejected e)) w)) \<subseteq> set (intervals w) \<and>
     next_interval (step cfg (Resolve i (Rejected e)) w) = next_interval w \<and>
     map_of (inflight (step cfg (Resolve i (Rejected e)) w)) i = None \<and>
     set (inflight (step cfg (Resolve i (Rejected e)) w)) \<subseteq> set (inflight w)"
proof -
  let ?v = "(settle i w)\<lparr>errorMessage := Some (uploadFailedMessage e), statusMessage := '''',
              isUploading := False\<rparr>"
  have eq: "step cfg (Resolve i (Rejected e)) w = resultEffect w (stopPolling ?v)"
    using step_resolve [OF assms(1) resume_upload_rejected [OF assms(2)]]
    by (simp add: uploadCatch_def)
  have sub: "set (intervals (stopPolling ?v)) \<subseteq> set (intervals w)"
    using stopPolling_subset [of ?v] by simp
  have flag: "\<not> isUploading (resultEffect w (stopPolling ?v))"
    by (rule resultEffect_isUploading) simp
  show ?thesis
    unfolding eq using sub flag
    by (auto simp: map_of_settled uploadFailedMessage_axios)
qed

theorem upload_failure_stops_witness:
  "map_of (inflight requesting) 0 = Some (AwaitPost photo) \<and>
   is_upload_op (AwaitPost photo) \<and>
   errorMessage (step sample_config (Resolve 0 (Rejected network_error)) requesting) =
     Some ''Network Error'' \<and>
   \<not> isUploading (step sample_config (Resolve 0 (Rejected network_error)) requesting) \<and>
   issued (step sample_config (Resolve 0 (Rejected network_error)) requesting) =
     [PostGenerateUploadUrl ''photo.jpg'' ''image/jpeg''] \<and>
   map_of (inflight transferring) 1 = Some (AwaitPut ''abc123'') \<and>
   errorMessage (step sample_config (Resolve 1 (Rejected network_error)) transferring) =
     Some ''Network Error'' \<and>
   \<not> isUploading (step sample_config (Resolve 1 (Rejected network_error)) transferring) \<and>
   pollIntervalRef (step sample_config (Resolve 1 (Rejected network_error)) transferring) = None"
proof -
  have a: "map_of (inflight requesting) 0 = Some (AwaitPost photo)"
    by code_simp
  have b: "map_of (inflight transferring) 1 = Some (AwaitPut ''abc123'')"
    by code_simp
  have c: "issued requesting = [PostGenerateUploadUrl ''photo.jpg'' ''image/jpeg'']"
    by code_simp
  have d: "uploadFailedMessage network_error = ''Network Error''"
    by (simp add: network_error_def or_else_def)
  show ?thesis
    using upload_failure_stops [OF a, of sample_config network_error]
      upload_failure_stops [OF b, of sample_config network_error] a b c d
    by simp
qed

section \<open>Polling\<close>

lemma pollForProcessedImage_fields [simp]:
  "selectedFile (pollForProcessedImage k a w) = selectedFile w"
  "uploadProgress (pollForProcessedImage k a w) = uploadProgress w"
  "isUploading (pollForProcessedImage k a w) = isUploading w"
  "errorMessage (pollForProcessedImage k a w) = errorMessage w"
  "processedImageUrl (pollForProcessedImage k a w) = processedImageUrl w"
  "pollIntervalRef (pollForProcessedImage k a w) = pollIntervalRef w"
  "intervals (pollForProcessedImage k a w) = intervals w"
  "next_interval (pollForProcessedImage k a w) = next_interval w"
  "inflight (pollForProcessedImage k a w) = inflight w @ [(length (issued w), AwaitPoll a)]"
  "issued (pollForProcessedImage k a w) = issued w @ [GetProcessedUrl k a]"
  by (simp_all add: pollForProcessedImage_def)

lemma find_interval_id: "find_interval t ts = Some i \<Longrightarrow> timer_id i = t"
  by (induction ts) (auto split: if_splits)


lemma step_tick_running:
  assumes "find_interval t (intervals v) = Some i"
  shows "issued (step cfg (Tick t) v) =
           issued v @ [GetProcessedUrl (timer_key i) (Suc (timer_attempt i))]"
    and "inflight (step cfg (Tick t) v) =
           inflight v @ [(length (issued v), AwaitPoll (Suc (timer_attempt i)))]"
    and "intervals (step cfg (Tick t) v) = bump_interval t (intervals v)"
    and "pollIntervalRef (step cfg (Tick t) v) = pollIntervalRef v"
    and "next_interval (step cfg (Tick t) v) = next_interval v"
  using assms by (simp_all add: step_def tick_def)

lemma step_tick_stopped:
  "find_interval t (intervals v) = None \<Longrightarrow> step cfg (Tick t) v = v"
  by (simp add: step_def tick_def resultEffect_def)








section \<open>A poll that fails\<close>




section \<open>Upload progress\<close>





lemma step_upload_starts:
  assumes "selectedFile w = Some f" and "\<not> api_unconfigured cfg" and "\<not> bucket_unconfigured cfg"
  shows "step cfg ClickUpload w =
     resultEffect w
       (send (PostGenerateUploadUrl (file_name f) (file_type f)) (AwaitPost f)
          (stopPolling (w\<lparr>isUploading := True, errorMessage := None,
                          processedImageUrl := None, uploadProgress := Num 0,
                          statusMessage := ''Getting upload URL...''\<rparr>)))"
  using assms by (simp add: step_def handleUpload_def)




section \<open>Cancellation\<close>

lemma cancels_cases:
  assumes "cancels cfg e w"
  obtains (select) f rest where "e = FileChange (Some (f # rest))"
  | (upload) f where "e = ClickUpload" "selectedFile w = Some f" "\<not> api_unconfigured cfg"
      "\<not> bucket_unconfigured cfg"
  | (unmount) "e = Unmount"
  using assms by (elim cancels.elims) auto

lemma step_unmount: "step cfg Unmount w = unmountCleanup w"
  by (simp add: step_def resultEffect_def unmountCleanup_def split: option.splits)

lemma unmountCleanup_owned: "timers_owned w \<Longrightarrow> intervals (unmountCleanup w) = []"
  by (auto simp: unmountCleanup_def timers_owned_def owned_cases clearInterval_def
           split: option.splits)

lemma cancel_idle:
  assumes "cancels cfg e w" and "timers_owned w"
  shows "intervals (step cfg e w) = []"
  using assms(1)
proof (cases rule: cancels_cases)
  case (select f rest)
  have "timers_owned (w\<lparr>selectedFile := Some f, errorMessage := None,
          processedImageUrl := None, uploadProgress := Num 0, statusMessage := ''''\<rparr>)"
    using assms(2) by (simp add: timers_owned_def)
  from stopPolling_owned [OF this] show ?thesis
    unfolding select step_select by simp
next
  case (upload f)
  have "timers_owned (w\<lparr>isUploading := True, errorMessage := None,
                          processedImageUrl := None, uploadProgress := Num 0,
                          statusMessage := ''Getting upload URL...''\<rparr>)"
    using assms(2) by (simp add: timers_owned_def)
  from stopPolling_owned [OF this] show ?thesis
    unfolding upload(1) step_upload_starts [OF upload(2-4)] by simp
next
  case unmount
  then show ?thesis
    by (simp add: step_unmount unmountCleanup_owned [OF assms(2)])
qed







section \<open>Outstanding requests\<close>

lemma upload_ops_same: "inflight v = inflight w \<Longrightarrow> upload_ops v = upload_ops w"
  by (simp add: upload_ops_def)

lemma upload_ops_append:
  "inflight v = inflight w @ xs \<Longrightarrow>
     upload_ops v = upload_ops w + length (filter (\<lambda>e. is_upload_op (snd e)) xs)"
  by (simp add: upload_ops_def)

lemma filter_settled_le:
  "length (filter P (filter (\<lambda>e. fst e \<noteq> i) xs)) \<le> length (filter P xs)"
  by (induction xs) auto

lemma filter_settled_less:
  "map_of xs i = Some p \<Longrightarrow> P (i, p) \<Longrightarrow>
     length (filter P (filter (\<lambda>e. fst e \<noteq> i) xs)) < length (filter P xs)"
proof (induction xs)
  case Nil
  then show ?case by simp
next
  case (Cons x xs)
  show ?case
  proof (cases "fst x = i")
    case True
    with Cons.prems have "P x"
      by (cases x) simp
    with True filter_settled_le [of P i xs] show ?thesis
      by simp
  next
    case False
    with Cons show ?thesis
      by (cases x) auto
  qed
qed

lemma upload_ops_settle_le: "upload_ops (settle i w) \<le> upload_ops w"
  using filter_settled_le [of "\<lambda>e. is_upload_op (snd e)" i "inflight w"]
  by (simp add: upload_ops_def)

lemma upload_ops_settle_less:
  "map_of (inflight w) i = Some p \<Longrightarrow> is_upload_op p \<Longrightarrow>
     upload_ops (settle i w) < upload_ops w"
  using filter_settled_less [of "inflight w" i p "\<lambda>e. is_upload_op (snd e)"]
  by (simp add: upload_ops_def)

lemma inflight_handlers [simp]:
  "inflight (uploadCatch e v) = inflight v"
  "inflight (afterPost f u k v) = inflight v @ [(length (issued v), AwaitPut k)]"
  "inflight (afterPut k v) =
     inflight v @ [(length (issued v), AwaitPoll 1), (Suc (length (issued v)), AwaitLiteralGet)]"
  "inflight (pollThen url v) = inflight v"
  "inflight (pollCatch a e v) = inflight v"
  "inflight (literalGetThen url v) = inflight v"
  "inflight (literalGetCatch e v) = inflight v"
  by (simp_all add: uploadCatch_def afterPost_def afterPut_def setInterval_def pollThen_def
        pollCatch_def literalGetThen_def literalGetCatch_def split: failure.splits)

lemma upload_ops_resume:
  assumes "map_of (inflight w) i = Some p" and "resume p r (settle i w) = Some v"
  shows "upload_ops v \<le> upload_ops w"
proof (cases "is_upload_op p")
  case True
  from upload_ops_settle_less [OF assms(1) True]
  have less: "Suc (upload_ops (settle i w)) \<le> upload_ops w"
    by simp
  from assms(2) True have "upload_ops v \<le> Suc (upload_ops (settle i w))"
    by (cases p; cases r) (auto simp: upload_ops_def)
  with less show ?thesis
    by simp
next
  case False
  with assms(2) have "upload_ops v = upload_ops (settle i w)"
    by (cases p; cases r) (auto simp: upload_ops_def)
  with upload_ops_settle_le [of i w] show ?thesis
    by simp
qed

lemma upload_ops_resolve: "upload_ops (resolve i r w) \<le> upload_ops w"
proof (cases "map_of (inflight w) i")
  case None
  then show ?thesis
    by (simp add: resolve_def)
next
  case (Some p)
  show ?thesis
  proof (cases "resume p r (settle i w)")
    case None
    with Some show ?thesis
      by (simp add: resolve_def)
  next
    case (Some v)
    with \<open>map_of (inflight w) i = Some p\<close> upload_ops_resume [of w i p r v] show ?thesis
      by (simp add: resolve_def)
  qed
qed

lemma upload_ops_resultEffect [simp]: "upload_ops (resultEffect w v) = upload_ops v"
  by (simp add: upload_ops_def)

lemma upload_ops_step:
  "upload_ops (step cfg e w) \<le> upload_ops w + (if e = ClickUpload then 1 else 0)"
proof (cases e)
  case (FileChange files)
  then show ?thesis
    by (simp add: step_def handleFileChange_def upload_ops_def
          split: option.splits list.splits)
next
  case ClickUpload
  then show ?thesis
    by (simp add: step_def handleUpload_def upload_ops_def split: option.splits)
next
  case (Resolve i r)
  then show ?thesis
    by (simp add: step_def upload_ops_resolve)
next
  case (UploadProgress i loaded tot)
  then show ?thesis
    by (simp add: step_def progress_def onUploadProgress_def upload_ops_def
          split: option.splits pending.splits)
next
  case (Tick t)
  then show ?thesis
    by (simp add: step_def tick_def upload_ops_def split: option.splits)
next
  case Unmount
  then show ?thesis
    by (simp add: step_def unmountCleanup_def upload_ops_def split: option.splits)
qed

lemma upload_ops_run:
  "upload_ops w \<le> 1 \<Longrightarrow> no_overlap cfg es w \<Longrightarrow> upload_ops (run cfg es w) \<le> 1"
proof (induction es arbitrary: w)
  case Nil
  then show ?case by simp
next
  case (Cons e es)
  from Cons.prems upload_ops_step [of cfg e w] have "upload_ops (step cfg e w) \<le> 1"
    by (auto split: if_splits)
  with Cons show ?case
    by simp
qed

text \<open>
  C9, as the code has it. When \<^verbatim>\<open>handleUpload\<close> is not called while a POST or a PUT
  is outstanding, at most one of these two requests of the upload is outstanding at any
  time: the PUT is sent when the POST has been answered, and polling starts when the PUT has
  been answered. Poll requests are not limited in this way: every firing of a running timer
  sends one, whether or not earlier polls have been answered.
\<close>

theorem upload_requests_sequential:
  "(upload_ops w \<le> 1 \<and> no_overlap cfg es w \<longrightarrow> upload_ops (run cfg es w) \<le> 1) \<and>
   (find_interval t (intervals v) = Some tm \<longrightarrow>
      polls_outstanding (step cfg (Tick t) v) = Suc (polls_outstanding v))"
proof (intro conjI impI)
  assume "upload_ops w \<le> 1 \<and> no_overlap cfg es w"
  then show "upload_ops (run cfg es w) \<le> 1"
    using upload_ops_run [of w cfg es] by simp
next
  assume "find_interval t (intervals v) = Some tm"
  from step_tick_running(2) [OF this, of cfg]
  show "polls_outstanding (step cfg (Tick t) v) = Suc (polls_outstanding v)"
    by (simp add: polls_outstanding_def)
qed

theorem upload_requests_sequential_witness:
  "upload_ops mounted \<le> 1 \<and> no_overlap sample_config upload_done mounted \<and>
   upload_ops (run sample_config upload_done mounted) \<le> 1 \<and>
   find_interval 1 (intervals polling) = Some (Interval 1 ''abc123'' 1 3000) \<and>
   polls_outstanding (step sample_config (Tick 1) polling) = Suc (polls_outstanding polling)"
proof -
  have a: "upload_ops mounted \<le> 1 \<and> no_overlap sample_config upload_done mounted"
    by code_simp
  have b: "find_interval 1 (intervals polling) = Some (Interval 1 ''abc123'' 1 3000)"
    by code_simp
  show ?thesis
    using upload_requests_sequential [where w = mounted and cfg = sample_config
        and es = upload_done and t = 1 and v = polling
        and tm = "Interval 1 ''abc123'' 1 3000"] a b
    by simp
qed

text \<open>
  The claim as stated fails when the first poll has not been answered within the interval:
  the timer fires and two polls for the key are outstanding, next to the GET of the fixed
  text.
\<close>

theorem overlapping_polls_counterexample:
  "inflight (step sample_config (Tick 1) polling) =
     [(2, AwaitPoll 1), (3, AwaitLiteralGet), (4, AwaitPoll 2)] \<and>
   polls_outstanding (step sample_config (Tick 1) polling) = 2 \<and>
   \<not> polls_outstanding (step sample_config (Tick 1) polling) \<le> 1 \<and>
   \<not> length (inflight (step sample_config (Tick 1) polling)) \<le> 1"
  by code_simp

section \<open>Timers in a run without overlapping uploads\<close>

text \<open>
  The hypothesis that at most one timer is running and that the component holds it, used
  above, holds in every state that the mounted component reaches as long as
  \<^verbatim>\<open>handleUpload\<close> is not called while a POST or PUT is outstanding.
\<close>

lemma timers_owned_resultEffect [simp]: "timers_owned (resultEffect w v) = timers_owned v"
  by (simp add: timers_owned_def)

lemma settledI:
  "upload_ops v \<le> upload_ops w \<Longrightarrow> upload_ops w \<le> 1 \<Longrightarrow> intervals v = [] \<Longrightarrow> settled_timers v"
  by (simp add: settled_timers_def owned_idle)

lemma settled_sameI:
  "settled_timers w \<Longrightarrow> upload_ops v \<le> upload_ops w \<Longrightarrow> intervals v = intervals w \<Longrightarrow>
     pollIntervalRef v = pollIntervalRef w \<Longrightarrow> settled_timers v"
  by (auto simp: settled_timers_def timers_owned_def)

lemma uploading_positive:
  "map_of (inflight w) i = Some p \<Longrightarrow> is_upload_op p \<Longrightarrow> 0 < upload_ops w"
  using upload_ops_settle_less [of w i p] by simp

lemma owned_bump: "owned r ts \<Longrightarrow> owned r (bump_interval t ts)"
  by (cases "(r, ts)" rule: owned.cases) auto

lemma pollCatch_timers:
  "pollCatch a e u = u \<or>
   (intervals (pollCatch a e u) = intervals (stopPolling u) \<and>
    pollIntervalRef (pollCatch a e u) = None)"
  by (cases e) (simp_all add: pollCatch_def stopPolling_more_fields)

lemma resume_timers:
  assumes "resume p r u = Some v"
  shows "(intervals v = intervals u \<and> pollIntervalRef v = pollIntervalRef u) \<or>
         (intervals v = intervals (stopPolling u) \<and> pollIntervalRef v = None) \<or>
         (\<exists>key. p = AwaitPut key \<and> r = PutDone \<and>
            intervals v = intervals u @ [Interval (next_interval u) key 1 POLL_INTERVAL_MS] \<and>
            pollIntervalRef v = Some (next_interval u))"
proof (cases p)
  case (AwaitPost f)
  with assms show ?thesis
    by (cases r) (auto simp: afterPost_def uploadCatch_def stopPolling_more_fields)
next
  case (AwaitPut key)
  with assms show ?thesis
    by (cases r) (auto simp: afterPut_def setInterval_def uploadCatch_def
          stopPolling_more_fields)
next
  case (AwaitPoll a)
  show ?thesis
  proof (cases r)
    case (Rejected e)
    with assms AwaitPoll have "v = pollCatch a e u"
      by simp
    with pollCatch_timers [of a e u] show ?thesis
      by auto
  qed (use assms AwaitPoll in \<open>auto simp: pollThen_def stopPolling_more_fields\<close>)
next
  case AwaitLiteralGet
  with assms show ?thesis
    by (cases r) (auto simp: literalGetThen_def literalGetCatch_def)
qed

lemma settled_resume:
  assumes s: "settled_timers w" and p: "map_of (inflight w) i = Some p"
    and r: "resume p r (settle i w) = Some v"
  shows "settled_timers v"
proof -
  from s have le1: "upload_ops w \<le> 1" and own: "timers_owned w"
    and idle: "0 < upload_ops w \<longrightarrow> intervals w = []"
    by (simp_all add: settled_timers_def)
  have le: "upload_ops v \<le> upload_ops w"
    by (rule upload_ops_resume [OF p r])
  have "timers_owned (settle i w)"
    using own by (simp add: timers_owned_def)
  then have stop: "intervals (stopPolling (settle i w)) = []"
    by (rule stopPolling_owned)
  from resume_timers [OF r] consider
      (same) "intervals v = intervals w" "pollIntervalRef v = pollIntervalRef w"
    | (stopped) "intervals v = []"
    | (started) key where "p = AwaitPut key" "r = PutDone"
        "intervals v = intervals w @ [Interval (next_interval w) key 1 POLL_INTERVAL_MS]"
        "pollIntervalRef v = Some (next_interval w)"
    using stop by auto
  then show ?thesis
  proof cases
    case same
    then show ?thesis by (intro settled_sameI [OF s le])
  next
    case stopped
    then show ?thesis by (intro settledI [OF le le1])
  next
    case (started key)
    from p started(1) have "0 < upload_ops w"
      by (intro uploading_positive [of w i p]) simp_all
    with idle have up: "intervals w = []"
      by simp
    from upload_ops_settle_less [OF p] started(1) le1 have "upload_ops (settle i w) = 0"
      by simp
    moreover from r started(1,2) have "inflight v = inflight (settle i w) @
        [(length (issued w), AwaitPoll 1), (Suc (length (issued w)), AwaitLiteralGet)]"
      by auto
    ultimately have "upload_ops v = 0"
      by (simp add: upload_ops_def)
    moreover have "timers_owned v"
      using started(3,4) up by (simp add: timers_owned_def)
    ultimately show ?thesis
      by (simp add: settled_timers_def)
  qed
qed

lemma settled_step:
  assumes s: "settled_timers w" and c: "e = ClickUpload \<longrightarrow> upload_ops w = 0"
  shows "settled_timers (step cfg e w)"
proof -
  from s have le1: "upload_ops w \<le> 1" and own: "timers_owned w"
    and idle: "0 < upload_ops w \<longrightarrow> intervals w = []"
    by (simp_all add: settled_timers_def)
  show ?thesis
  proof (cases e)
    case (FileChange files)
    from step_file_change_keeps [OF own, of cfg files] s show ?thesis
      unfolding FileChange by (auto simp: settled_timers_def upload_ops_def)
  next
    case ClickUpload
    with c have z: "upload_ops w = 0"
      by simp
    show ?thesis
    proof (cases "cancels cfg ClickUpload w")
      case True
      from cancel_idle [OF True own] upload_ops_step [of cfg ClickUpload w] z
      show ?thesis
        unfolding ClickUpload by (simp add: settled_timers_def owned_idle)
    next
      case False
      then have "selectedFile w = None \<or> api_unconfigured cfg \<or> bucket_unconfigured cfg"
        by auto
      from step_upload_refused [OF this] s show ?thesis
        unfolding ClickUpload by (auto simp: settled_timers_def upload_ops_def timers_owned_def)
    qed
  next
    case (Resolve i r)
    show ?thesis
    proof (cases "map_of (inflight w) i")
      case None
      with s show ?thesis
        unfolding Resolve by (simp add: step_resolve_absent)
    next
      case (Some p)
      show ?thesis
      proof (cases "resume p r (settle i w)")
        case None
        with Some s show ?thesis
          unfolding Resolve by (simp add: step_def resolve_def resultEffect_def)
      next
        case (Some v)
        from settled_resume [OF s \<open>map_of (inflight w) i = Some p\<close> Some]
        show ?thesis
          unfolding Resolve step_resolve [OF \<open>map_of (inflight w) i = Some p\<close> Some]
          by (simp add: settled_timers_def)
      qed
    qed
  next
    case (UploadProgress i loaded tot)
    with s show ?thesis
      by (auto simp: step_def progress_def onUploadProgress_def settled_timers_def
            upload_ops_def timers_owned_def split: option.splits pending.splits)
  next
    case (Tick t)
    show ?thesis
    proof (cases "find_interval t (intervals w)")
      case None
      with s show ?thesis
        unfolding Tick by (simp add: step_tick_stopped)
    next
      case (Some tm)
      then have "intervals w \<noteq> []"
        by auto
      with idle have z: "upload_ops w = 0"
        by auto
      from step_tick_running [OF Some, of cfg] own z show ?thesis
        unfolding Tick by (simp add: settled_timers_def upload_ops_def timers_owned_def owned_bump)
    qed
  next
    case Unmount
    from unmountCleanup_owned [OF own] s show ?thesis
      unfolding Unmount step_unmount
      by (simp add: settled_timers_def owned_idle upload_ops_def unmountCleanup_def
            split: option.splits)
  qed
qed

lemma settled_run:
  "settled_timers w \<Longrightarrow> no_overlap cfg es w \<Longrightarrow> settled_timers (run cfg es w)"
  by (induction es arbitrary: w) (simp_all add: settled_step)

lemma settled_mounted: "settled_timers mounted"
  by (simp add: settled_timers_def mounted_def upload_ops_def timers_owned_def)

lemma timers_owned_reachable:
  "no_overlap cfg es mounted \<Longrightarrow> timers_owned (run cfg es mounted)"
  using settled_run [OF settled_mounted, of cfg es] by (simp add: settled_timers_def)

section \<open>The attempt budget\<close>

lemma last_attempt_state:
  "last_attempt =
     \<lparr>selectedFile = Some photo, uploadProgress = Num 0, isUploading = True,
      errorMessage = None, processedImageUrl = None,
      statusMessage = ''Processing... (Attempt 15/15)'', pollIntervalRef = Some 1,
      intervals = [Interval 1 ''abc123'' 15 3000], next_interval = 2,
      inflight = [(3, AwaitLiteralGet), (17, AwaitPoll 15)],
      issued =
        PostGenerateUploadUrl ''photo.jpg'' ''image/jpeg'' # PutUpload ''https://store/x'' photo #
        GetProcessedUrl ''abc123'' 1 # GetLiteralUrl #
        map (GetProcessedUrl ''abc123'') [2..<16]\<rparr>"
  by code_simp

text \<open>
  When every poll is answered with 404 before the timer fires again, the answer to attempt
  15 ends polling: the timeout message is set, the timer is cleared, 15 polls have been sent
  and a later firing sends nothing.
\<close>

lemma timeout_after_fifteen_answers:
  "errorMessage (step sample_config (Resolve 17 not_found) last_attempt) =
     Some ''Processing timed out or failed. Please try again.'' \<and>
   statusMessage (step sample_config (Resolve 17 not_found) last_attempt) = '''' \<and>
   pollIntervalRef (step sample_config (Resolve 17 not_found) last_attempt) = None \<and>
   intervals (step sample_config (Resolve 17 not_found) last_attempt) = [] \<and>
   polls_sent (step sample_config (Resolve 17 not_found) last_attempt) = 15 \<and>
   polls_sent (run sample_config [Resolve 17 not_found, Tick 1] last_attempt) = 15"
  unfolding last_attempt_state by code_simp

text \<open>
  C1. The attempt counter is bounded by 15 and no 16th poll is sent: this is what the code
  does not keep. The bound is tested only in the \<^verbatim>\<open>catch\<close> of a poll, when its
  rejection arrives, while the timer increments the counter and sends a poll at every
  firing. Here polls 1 to 14 were answered with 404 in time and the answer to poll 15 is
  still outstanding when the timer fires again: the counter becomes 16, above
  \<^verbatim>\<open>MAX_POLL_ATTEMPTS\<close>, and a 16th poll request is sent.
\<close>

theorem sixteenth_poll_sent:
  "map_of (inflight last_attempt) 17 = Some (AwaitPoll 15) \<and>
   intervals last_attempt = [Interval 1 ''abc123'' 15 3000] \<and>
   polls_sent last_attempt = 15 \<and>
   intervals (step sample_config (Tick 1) last_attempt) = [Interval 1 ''abc123'' 16 3000] \<and>
   \<not> timer_attempt (hd (intervals (step sample_config (Tick 1) last_attempt)))
       \<le> MAX_POLL_ATTEMPTS \<and>
   last (issued (step sample_config (Tick 1) last_attempt)) = GetProcessedUrl ''abc123'' 16 \<and>
   polls_sent (step sample_config (Tick 1) last_attempt) = 16"
  unfolding last_attempt_state by code_simp

end
